theory Spec2Isabelle
  imports Main "HOL-Library.Sublist" "HOL-Library.Product_Lexorder"
begin

section \<open>The review scraper of main.py\<close>

text \<open>
  The development embeds \<^verbatim>\<open>main.py\<close>: the fetch orchestrator, link discovery, the
  pagination walk, the review extractor with its two deduplication passes, the date filter and
  the command-line driver. The libraries the script calls (requests, Selenium, BeautifulSoup,
  urllib, dateutil, the built-in string predicates, the file system) are collaborators; what
  they return is a field of the environment \<open>env\<close>, so every theorem holds for whatever they
  answer. A collaborator that raises on inputs the script can hand it returns a sum or an
  option: the transport, the renderer, the date parser, \<^verbatim>\<open>urljoin\<close> (a \<^verbatim>\<open>ValueError\<close> on a
  malformed URL), \<^verbatim>\<open>quote_plus\<close> (a \<^verbatim>\<open>UnicodeEncodeError\<close> on a lone surrogate) and the
  write of the output file. The HTML parser and the queries on the parsed page accept any
  document and are total.
\<close>

subsection \<open>Data model\<close>

text \<open>
  A \<^verbatim>\<open>datetime.date\<close> is its (year, month, day) triple; Python compares dates in that
  lexicographic order, which is the order of \<open>Product_Lexorder\<close>.
\<close>

type_synonym date = "nat \<times> nat \<times> nat"

text \<open>
  Exceptions are values. \<open>HTTPError st\<close> is \<^verbatim>\<open>requests.HTTPError\<close>, \<open>st\<close> being
  \<^verbatim>\<open>getattr(e.response, "status_code", None)\<close>; \<open>RequestException\<close> stands for every
  other exception \<^verbatim>\<open>session.get\<close> raises.
\<close>

datatype exn =
    HTTPError "nat option"
  | RequestException string
  | RuntimeError string
  | ValueError string
  | UnicodeEncodeError string
  | OSError string

text \<open>
  What \<^verbatim>\<open>json.dump\<close> writes: a dictionary is the object of its keys in insertion order,
  \<^verbatim>\<open>None\<close> is \<^verbatim>\<open>null\<close>.
\<close>

datatype json = JNull | JString string | JArray "json list" | JObject "(string \<times> json) list"

record response =
  status_code :: nat
  resp_text :: string

text \<open>
  A BeautifulSoup element, seen through the calls \<^verbatim>\<open>parse_reviews_from_soup\<close> makes on it:
  \<^item> \<open>el_str\<close>: \<^verbatim>\<open>str(el)\<close>, \<open>None\<close> when the call raises;
  \<^item> \<open>get_text_sp\<close>: \<^verbatim>\<open>el.get_text(separator=" ", strip=True)\<close>;
  \<^item> \<open>find_heading h\<close>: \<^verbatim>\<open>el.find(h)\<close>, and the \<^verbatim>\<open>get_text(strip=True)\<close> of the
    heading found;
  \<^item> \<open>time_texts\<close>: the \<^verbatim>\<open>get_text(strip=True)\<close> of each element of
    \<^verbatim>\<open>el.find_all(["time", "span", "p"])\<close>, in document order;
  \<^item> \<open>get_text_pipe\<close>: \<^verbatim>\<open>el.get_text(separator=" | ")\<close>.
\<close>

record element =
  el_str :: "string option"
  get_text_sp :: string
  find_heading :: "string \<Rightarrow> string option"
  time_texts :: "string list"
  get_text_pipe :: string

text \<open>
  A parsed page, seen through the queries of the script. An element found with an optional
  \<^verbatim>\<open>href\<close> is a \<open>string option option\<close>: \<open>None\<close> when no element matches,
  \<open>Some (el.get("href"))\<close> otherwise.
  \<^item> \<open>review_id_els\<close>: \<^verbatim>\<open>soup.find_all(attrs={"data-review-id": True})\<close>;
  \<^item> \<open>review_class_els\<close>: \<^verbatim>\<open>soup.find_all(class_=lambda c: c and "review" in c.lower())\<close>;
  \<^item> \<open>selected_els\<close>: \<^verbatim>\<open>soup.select("div.g2-review, div.c-review, div.review-card, article")\<close>;
  \<^item> \<open>anchors\<close>: the \<^verbatim>\<open>href\<close> of each element of \<^verbatim>\<open>soup.find_all("a", href=True)\<close>;
  \<^item> \<open>canonical\<close>: \<^verbatim>\<open>soup.find("link", rel="canonical")\<close>;
  \<^item> \<open>next_anchor\<close>: \<^verbatim>\<open>soup.find("a", string=lambda s: s and "next" in s.lower())\<close>;
  \<^item> \<open>link_next\<close>: \<^verbatim>\<open>soup.find("link", rel="next")\<close>;
  \<^item> \<open>pagination_next\<close>: \<^verbatim>\<open>soup.select_one("a.pagination-next, a.next")\<close>.
\<close>

record soup =
  review_id_els :: "element list"
  review_class_els :: "element list"
  selected_els :: "element list"
  anchors :: "string list"
  canonical :: "string option option"
  next_anchor :: "string option option"
  link_next :: "string option option"
  pagination_next :: "string option option"

text \<open>
  The environment of a run.
  \<^item> \<open>selenium_available\<close>: the module constant \<^verbatim>\<open>SELENIUM_AVAILABLE\<close>;
  \<^item> \<open>session_get\<close>: \<^verbatim>\<open>session.get(url, timeout=15)\<close> on the session of
    \<^verbatim>\<open>create_session\<close> (retries and proxies included);
  \<^item> \<open>render\<close>: the headless-browser block of \<^verbatim>\<open>fetch\<close>, \<open>Inl cause\<close> when any
    of its calls raises, \<open>Inr\<close> of \<^verbatim>\<open>driver.page_source\<close> otherwise;
  \<^item> \<open>BeautifulSoup\<close>: \<^verbatim>\<open>BeautifulSoup(html, "html.parser")\<close>;
  \<^item> \<open>urljoin\<close>, \<open>quote_plus\<close>: the functions of \<^verbatim>\<open>urllib.parse\<close>, \<open>Inl\<close> of the exception
    when they raise; the second argument of \<open>urljoin\<close> is \<open>None\<close> where the script passes
    \<^verbatim>\<open>None\<close>;
  \<^item> \<open>dateparse\<close>, \<open>dateparse_fuzzy\<close>: \<^verbatim>\<open>dateparser.parse(s).date()\<close> and
    \<^verbatim>\<open>dateparser.parse(s, fuzzy=True).date()\<close>, \<open>None\<close> when either call raises;
  \<^item> \<open>isoformat\<close>: \<^verbatim>\<open>date.isoformat()\<close>;
  \<^item> \<open>isalnum\<close>, \<open>isspace\<close>, \<open>lower\<close>: the methods of \<^verbatim>\<open>str\<close>;
  \<^item> \<open>write_output path j\<close>: \<^verbatim>\<open>open(path, "w", encoding="utf-8")\<close> and
    \<^verbatim>\<open>json.dump\<close> of \<open>j\<close> into the file, \<open>Some\<close> of the exception when either raises.
\<close>

record env =
  selenium_available :: bool
  session_get :: "string \<Rightarrow> exn + response"
  render :: "string \<Rightarrow> string + string"
  BeautifulSoup :: "string \<Rightarrow> soup"
  urljoin :: "string \<Rightarrow> string option \<Rightarrow> exn + string"
  quote_plus :: "string \<Rightarrow> exn + string"
  dateparse :: "string \<Rightarrow> date option"
  dateparse_fuzzy :: "string \<Rightarrow> date option"
  isoformat :: "date \<Rightarrow> string"
  isalnum :: "char \<Rightarrow> bool"
  isspace :: "char \<Rightarrow> bool"
  lower :: "string \<Rightarrow> string"
  write_output :: "string \<Rightarrow> json \<Rightarrow> exn option"

subsection \<open>The fetch orchestrator\<close>

text \<open>
  \<^verbatim>\<open>Response.raise_for_status\<close> of requests raises \<^verbatim>\<open>HTTPError\<close> for a status from
  400 to 599 and returns otherwise.
\<close>

definition raise_for_status :: "response \<Rightarrow> exn + unit" where
  "raise_for_status r =
     (if 400 \<le> status_code r \<and> status_code r < 600
      then Inl (HTTPError (Some (status_code r))) else Inr ())"

text \<open>
  The tail of \<^verbatim>\<open>fetch\<close> after its \<^verbatim>\<open>try\<close> statement (lines 78 to 97), reached with
  the current value of \<^verbatim>\<open>use_selenium\<close>.
\<close>

definition fetch_selenium :: "env \<Rightarrow> string \<Rightarrow> bool \<Rightarrow> exn + string" where
  "fetch_selenium e url use_selenium =
     (if use_selenium \<and> selenium_available e
      then (case render e url of
              Inr html \<Rightarrow> Inr html
            | Inl cause \<Rightarrow> Inl (RuntimeError (''Selenium fetch failed: '' @ cause)))
      else Inl (RuntimeError (''Unable to fetch URL: '' @ url)))"

text \<open>
  The handler \<^verbatim>\<open>except requests.HTTPError as e\<close> (lines 71 to 76): it falls through to the
  Selenium block with \<^verbatim>\<open>use_selenium = True\<close>, or raises the error again.
\<close>

definition fetch_http_error :: "env \<Rightarrow> string \<Rightarrow> nat option \<Rightarrow> exn + string" where
  "fetch_http_error e url st =
     (if st = Some 403 \<and> selenium_available e
      then fetch_selenium e url True
      else Inl (HTTPError st))"

definition fetch :: "env \<Rightarrow> string \<Rightarrow> bool \<Rightarrow> exn + string" where
  "fetch e url use_selenium =
     (case session_get e url of
        Inl (HTTPError st) \<Rightarrow> fetch_http_error e url st
      | Inl ex \<Rightarrow> Inl ex
      | Inr r \<Rightarrow>
          if status_code r = 403 \<and> selenium_available e
          then fetch_selenium e url True
          else (case raise_for_status r of
                  Inl (HTTPError st) \<Rightarrow> fetch_http_error e url st
                | Inl ex \<Rightarrow> Inl ex
                | Inr u \<Rightarrow> Inr (resp_text r)))"

subsection \<open>Strings\<close>

text \<open>
  \<^verbatim>\<open>s.split(c)\<close> for a separator of one character, \<^verbatim>\<open>s.strip()\<close>, \<^verbatim>\<open>s.split()\<close> and
  \<^verbatim>\<open>sep.join(ws)\<close>. \<^verbatim>\<open>s.startswith(p)\<close> is \<open>prefix p s\<close>, \<^verbatim>\<open>s.endswith(p)\<close> is
  \<open>suffix p s\<close>, \<^verbatim>\<open>p in s\<close> is \<open>sublist p s\<close>, and \<^verbatim>\<open>s[:n]\<close> is \<open>take n s\<close>.
\<close>

fun split_on :: "char \<Rightarrow> string \<Rightarrow> string list" where
  "split_on c [] = [[]]"
| "split_on c (x # xs) =
     (if x = c then [] # split_on c xs
      else (case split_on c xs of [] \<Rightarrow> [[x]] | w # ws \<Rightarrow> (x # w) # ws))"

definition strip :: "(char \<Rightarrow> bool) \<Rightarrow> string \<Rightarrow> string" where
  "strip sp s = rev (dropWhile sp (rev (dropWhile sp s)))"

function split_ws :: "(char \<Rightarrow> bool) \<Rightarrow> string \<Rightarrow> string list" where
  "split_ws sp s =
     (let s' = dropWhile sp s
      in if s' = [] then []
         else takeWhile (\<lambda>c. \<not> sp c) s' # split_ws sp (dropWhile (\<lambda>c. \<not> sp c) s'))"
  by pat_completeness auto
termination
proof (relation "measure (\<lambda>(sp, s). length s)")
  show "wf (measure (\<lambda>(sp, s). length s))" by simp
next
  fix sp :: "char \<Rightarrow> bool" and s s' :: string
  assume s': "s' = dropWhile sp s" and ne: "s' \<noteq> []"
  then obtain c cs where c: "s' = c # cs" and nsp: "\<not> sp c"
    by (metis hd_dropWhile list.collapse)
  have "length (dropWhile (\<lambda>c. \<not> sp c) s') \<le> length cs"
    using c nsp by (simp add: length_dropWhile_le)
  also have "length cs < length s'" using c by simp
  also have "length s' \<le> length s" using s' by (simp add: length_dropWhile_le)
  finally show "((sp, dropWhile (\<lambda>c. \<not> sp c) s'), (sp, s)) \<in> measure (\<lambda>(sp, s). length s)"
    by simp
qed

fun join :: "string \<Rightarrow> string list \<Rightarrow> string" where
  "join sep [] = []"
| "join sep [w] = w"
| "join sep (w # v # ws) = w @ sep @ join sep (v # ws)"

subsection \<open>The review extractor\<close>

text \<open>
  The dictionary literal of lines 210 to 219, with its nested \<^verbatim>\<open>"additional"\<close> dictionary.
  \<open>None\<close> is Python's \<^verbatim>\<open>None\<close>.
\<close>

record additional =
  rating :: "string option"
  reviewer :: "string option"

record review =
  title :: string
  description :: string
  date :: "string option"
  source :: string
  additional :: additional

text \<open>The loop over \<^verbatim>\<open>("h3", "h4", "h2")\<close>: the text of the first heading found.\<close>

fun first_heading :: "element \<Rightarrow> string list \<Rightarrow> string option" where
  "first_heading el [] = None"
| "first_heading el (h # hs) =
     (case find_heading el h of Some t \<Rightarrow> Some t | None \<Rightarrow> first_heading el hs)"

text \<open>
  \<^verbatim>\<open>title or (text[:120] + "...") if text else ""\<close>: the conditional expression binds
  weaker than \<^verbatim>\<open>or\<close>, and a title that is \<^verbatim>\<open>None\<close> or empty is falsy.
\<close>

definition review_title :: "element \<Rightarrow> string \<Rightarrow> string" where
  "review_title el txt =
     (if txt \<noteq> []
      then (case first_heading el [''h3'', ''h4'', ''h2''] of
              Some t \<Rightarrow> if t \<noteq> [] then t else take 120 txt @ ''...''
            | None \<Rightarrow> take 120 txt @ ''...'')
      else [])"

text \<open>The date loop: the first text that the fuzzy parser accepts.\<close>

fun first_date :: "env \<Rightarrow> string list \<Rightarrow> date option" where
  "first_date e [] = None"
| "first_date e (st # sts) =
     (case dateparse_fuzzy e st of Some d \<Rightarrow> Some d | None \<Rightarrow> first_date e sts)"

definition is_rating_token :: "env \<Rightarrow> string \<Rightarrow> bool" where
  "is_rating_token e token \<longleftrightarrow>
     suffix ''/5'' token \<or> suffix '' out of 5'' token \<or> prefix ''rating'' (lower e token)"

definition find_rating :: "env \<Rightarrow> element \<Rightarrow> string option" where
  "find_rating e el =
     find (is_rating_token e) (map (strip (isspace e)) (split_on CHR ''|'' (get_text_pipe el)))"

definition make_review :: "env \<Rightarrow> element \<Rightarrow> string \<Rightarrow> string \<Rightarrow> review" where
  "make_review e el txt src =
     \<lparr> title = review_title el txt,
       description = txt,
       date = map_option (isoformat e) (first_date e (time_texts el)),
       source = src,
       additional = \<lparr> rating = find_rating e el, reviewer = None \<rparr> \<rparr>"

text \<open>
  The loop over the candidates (lines 172 to 220); \<open>seen\<close> is the set of serialized markups
  met so far.
\<close>

fun extract_candidates :: "env \<Rightarrow> string \<Rightarrow> element list \<Rightarrow> string set \<Rightarrow> review list" where
  "extract_candidates e src [] seen = []"
| "extract_candidates e src (el # els) seen =
     (case el_str el of
        None \<Rightarrow> extract_candidates e src els seen
      | Some html_text \<Rightarrow>
          if html_text \<in> seen then extract_candidates e src els seen
          else if get_text_sp el = [] \<or> length (get_text_sp el) < 40
               then extract_candidates e src els (insert html_text seen)
               else make_review e el (get_text_sp el) src
                      # extract_candidates e src els (insert html_text seen))"

text \<open>
  The second pass (lines 222 to 231); \<open>seen_desc\<close> is the set of descriptions already kept.
\<close>

fun dedupe :: "review list \<Rightarrow> string set \<Rightarrow> review list" where
  "dedupe [] seen_desc = []"
| "dedupe (r # rs) seen_desc =
     (if description r = [] \<or> description r \<in> seen_desc then dedupe rs seen_desc
      else r # dedupe rs (insert (description r) seen_desc))"

definition parse_reviews_from_soup :: "env \<Rightarrow> soup \<Rightarrow> string \<Rightarrow> review list" where
  "parse_reviews_from_soup e sp src =
     dedupe (extract_candidates e src
               (review_id_els sp @ review_class_els sp @ selected_els sp) {}) {}"

subsection \<open>The date filter\<close>

text \<open>
  The body of the loop of lines 268 to 277: a falsy \<^verbatim>\<open>r.get("date")\<close> (\<^verbatim>\<open>None\<close> or the
  empty string) appends the record, a date that parses appends it when it lies in the range,
  and the handler of any exception appends it.
\<close>

definition date_filter_keeps :: "env \<Rightarrow> date \<Rightarrow> date \<Rightarrow> review \<Rightarrow> bool" where
  "date_filter_keeps e start_date end_date r =
     (case date r of
        None \<Rightarrow> True
      | Some ds \<Rightarrow>
          if ds = [] then True
          else (case dateparse e ds of
                  None \<Rightarrow> True
                | Some d \<Rightarrow> start_date \<le> d \<and> d \<le> end_date))"

fun date_filter :: "env \<Rightarrow> date \<Rightarrow> date \<Rightarrow> review list \<Rightarrow> review list" where
  "date_filter e start_date end_date [] = []"
| "date_filter e start_date end_date (r # rs) =
     (if date_filter_keeps e start_date end_date r
      then r # date_filter e start_date end_date rs
      else date_filter e start_date end_date rs)"

subsection \<open>The pagination walk\<close>

text \<open>
  \<^verbatim>\<open>el and el.get("href")\<close>: the \<^verbatim>\<open>href\<close> when the element exists and its
  \<^verbatim>\<open>href\<close> is a non-empty string.
\<close>

definition href_of :: "string option option \<Rightarrow> string option" where
  "href_of x = (case x of Some (Some h) \<Rightarrow> if h \<noteq> [] then Some h else None | _ \<Rightarrow> None)"

text \<open>
  Lines 248 to 260: the three ways to the next link, in the order of the script. The result
  is \<open>Inl\<close> of the exception when \<^verbatim>\<open>urljoin\<close> raises.
\<close>

definition find_next_link :: "env \<Rightarrow> string \<Rightarrow> soup \<Rightarrow> exn + string option" where
  "find_next_link e next_url sp =
     (case href_of (next_anchor sp) of
        Some h \<Rightarrow> map_sum id Some (urljoin e next_url (Some h))
      | None \<Rightarrow>
          (case link_next sp of
             Some nl \<Rightarrow> map_sum id Some (urljoin e next_url nl)
           | None \<Rightarrow>
               (case href_of (pagination_next sp) of
                  Some h \<Rightarrow> map_sum id Some (urljoin e next_url (Some h))
                | None \<Rightarrow> Inr None)))"

text \<open>
  The \<^verbatim>\<open>while\<close> loop of lines 238 to 264. \<open>next_url\<close> is \<open>None\<close> for Python's
  \<^verbatim>\<open>None\<close>, and the empty string is falsy as well. The loop ends with \<open>Inr\<close> of the records
  it has gathered, or with \<open>Inl\<close> of the exception that left it: only the call of \<open>fetch\<close> is
  inside the \<^verbatim>\<open>try\<close> statement, so an exception of \<^verbatim>\<open>urljoin\<close> leaves the function and
  the records gathered so far are lost with it. Next to that result the loop returns \<open>trace\<close>,
  the URLs passed to \<open>fetch\<close> in order. The loop has no bound of its own, so it is a partial
  function: \<open>None\<close> is a run that never leaves the loop.
\<close>

partial_function (option) walk_loop ::
  "env \<Rightarrow> string \<Rightarrow> bool \<Rightarrow> string option \<Rightarrow> string set \<Rightarrow> review list \<Rightarrow> string list
     \<Rightarrow> ((exn + review list) \<times> string list) option" where
  "walk_loop e src use_selenium next_url visited reviews trace =
     (case next_url of
        None \<Rightarrow> Some (Inr reviews, trace)
      | Some u \<Rightarrow>
          if u = [] \<or> u \<in> visited then Some (Inr reviews, trace)
          else (case fetch e u use_selenium of
                  Inl ex \<Rightarrow> Some (Inr reviews, trace @ [u])
                | Inr html \<Rightarrow>
                    (case find_next_link e u (BeautifulSoup e html) of
                       Inl ex \<Rightarrow> Some (Inl ex, trace @ [u])
                     | Inr next_link \<Rightarrow>
                         walk_loop e src use_selenium next_link (insert u visited)
                           (reviews @ parse_reviews_from_soup e (BeautifulSoup e html) src)
                           (trace @ [u]))))"

text \<open>The walk, then the date filter on the records of a walk that returned.\<close>

definition scrape_with_pagination ::
  "env \<Rightarrow> string \<Rightarrow> string \<Rightarrow> date \<Rightarrow> date \<Rightarrow> bool
     \<Rightarrow> ((exn + review list) \<times> string list) option" where
  "scrape_with_pagination e start_url src start_date end_date use_selenium =
     (case walk_loop e src use_selenium (Some start_url) {} [] [] of
        None \<Rightarrow> None
      | Some (Inl ex, trace) \<Rightarrow> Some (Inl ex, trace)
      | Some (Inr reviews, trace) \<Rightarrow> Some (Inr (date_filter e start_date end_date reviews), trace))"


subsection \<open>Link discovery\<close>





text \<open>The nested \<^verbatim>\<open>slugify\<close> of \<^verbatim>\<open>capterra_search_company_link\<close>.\<close>

definition slugify :: "env \<Rightarrow> string \<Rightarrow> string" where
  "slugify e name =
     join ''-'' (split_ws (isspace e)
       (filter (\<lambda>c. isalnum e c \<or> isspace e c \<or> c = CHR ''-'') (lower e name)))"

text \<open>The list \<^verbatim>\<open>candidates\<close>, from \<open>q\<close>, the quoted company name, and the company name.\<close>

definition capterra_candidates :: "env \<Rightarrow> string \<Rightarrow> string \<Rightarrow> string list" where
  "capterra_candidates e q company =
     [''https://www.capterra.com/search?search='' @ q,
      ''https://www.capterra.com/search?query='' @ q]
     @ [''https://www.capterra.com/p/'' @ slugify e company,
        ''https://www.capterra.com/software/'' @ slugify e company]"

definition is_capterra_href :: "string \<Rightarrow> bool" where
  "is_capterra_href href \<longleftrightarrow>
     prefix ''/p'' href \<or> sublist ''/product/'' href \<or> sublist ''/software/'' href
     \<or> prefix ''/vendor/'' href"

text \<open>
  The loop over the candidates (lines 134 to 149). Its \<^verbatim>\<open>try\<close> statement holds the call
  of \<open>fetch\<close> alone; the \<^verbatim>\<open>urljoin\<close> of the \<^verbatim>\<open>return\<close> is outside.
\<close>

fun capterra_try :: "env \<Rightarrow> bool \<Rightarrow> string list \<Rightarrow> (exn + string option) \<times> string list" where
  "capterra_try e use_selenium [] = (Inr None, [])"
| "capterra_try e use_selenium (url # urls) =
     (case fetch e url use_selenium of
        Inl ex \<Rightarrow> (case capterra_try e use_selenium urls of (r, t) \<Rightarrow> (r, url # t))
      | Inr html \<Rightarrow>
          (case find is_capterra_href (anchors (BeautifulSoup e html)) of
             Some href \<Rightarrow>
               (map_sum id Some (urljoin e ''https://www.capterra.com'' (Some href)), [url])
           | None \<Rightarrow>
               (case href_of (canonical (BeautifulSoup e html)) of
                  Some h \<Rightarrow> (Inr (Some h), [url])
                | None \<Rightarrow>
                    (case capterra_try e use_selenium urls of (r, t) \<Rightarrow> (r, url # t)))))"

definition capterra_search_company_link ::
  "env \<Rightarrow> string \<Rightarrow> bool \<Rightarrow> (exn + string option) \<times> string list" where
  "capterra_search_company_link e company use_selenium =
     (case quote_plus e company of
        Inl ex \<Rightarrow> (Inl ex, [])
      | Inr q \<Rightarrow> capterra_try e use_selenium (capterra_candidates e q company))"

text \<open>
  The words of the specification, for comparison with the loop: what one candidate URL
  yields (nothing, \<open>Inr None\<close>, when its fetch fails; else its first matching anchor joined to
  the site root, else its canonical link),
\<close>

definition candidate_link :: "env \<Rightarrow> bool \<Rightarrow> string \<Rightarrow> exn + string option" where
  "candidate_link e use_selenium url =
     (case fetch e url use_selenium of
        Inl ex \<Rightarrow> Inr None
      | Inr html \<Rightarrow>
          (case find is_capterra_href (anchors (BeautifulSoup e html)) of
             Some href \<Rightarrow> map_sum id Some (urljoin e ''https://www.capterra.com'' (Some href))
           | None \<Rightarrow> Inr (href_of (canonical (BeautifulSoup e html)))))"

text \<open>
  and the slug as the specification words it: lowercase, drop every character that is not
  alphanumeric, whitespace or a hyphen, then turn each run of whitespace into one hyphen.
\<close>

function collapse_ws :: "(char \<Rightarrow> bool) \<Rightarrow> string \<Rightarrow> string" where
  "collapse_ws sp [] = []"
| "collapse_ws sp (c # cs) =
     (if sp c then CHR ''-'' # collapse_ws sp (dropWhile sp cs) else c # collapse_ws sp cs)"
  by pat_completeness auto
termination
  by (relation "measure (\<lambda>(sp, s). length s)") (auto simp: length_dropWhile_le less_Suc_eq_le)

definition spec_slug :: "env \<Rightarrow> string \<Rightarrow> string" where
  "spec_slug e name =
     collapse_ws (isspace e)
       (filter (\<lambda>c. isalnum e c \<or> isspace e c \<or> c = CHR ''-'') (lower e name))"

subsection \<open>The sources\<close>





subsection \<open>The command-line driver\<close>


definition json_opt :: "string option \<Rightarrow> json" where
  "json_opt v = (case v of None \<Rightarrow> JNull | Some s \<Rightarrow> JString s)"

definition review_json :: "review \<Rightarrow> json" where
  "review_json r =
     JObject
       [(''title'', JString (title r)),
        (''description'', JString (description r)),
        (''date'', json_opt (date r)),
        (''source'', JString (source r)),
        (''additional'',
           JObject [(''rating'', json_opt (rating (additional r))),
                    (''reviewer'', json_opt (reviewer (additional r)))])]"

fun json_keys :: "json \<Rightarrow> string list" where
  "json_keys (JObject kvs) = map fst kvs"
| "json_keys j = []"









section \<open>Fixtures\<close>

text \<open>
  A concrete environment, on which the theorems are evaluated: every URL answers status 403,
  no rendering capability is installed, and rendering (were it called) fails.
\<close>

definition blocked_env :: env where
  "blocked_env =
     \<lparr> selenium_available = False,
       session_get = (\<lambda>url. Inr \<lparr> status_code = 403, resp_text = ''Forbidden'' \<rparr>),
       render = (\<lambda>url. Inl ''chrome not reachable''),
       BeautifulSoup = (\<lambda>html. \<lparr> review_id_els = [], review_class_els = [], selected_els = [],
          anchors = [], canonical = None, next_anchor = None, link_next = None,
          pagination_next = None \<rparr>),
       urljoin = (\<lambda>base url. case url of None \<Rightarrow> Inr base | Some u \<Rightarrow> Inr u),
       quote_plus = (\<lambda>s. Inr s),
       dateparse = (\<lambda>s. None),
       dateparse_fuzzy = (\<lambda>s. None),
       isoformat = (\<lambda>d. ''''),
       isalnum = (\<lambda>c. False),
       isspace = (\<lambda>c. c = CHR '' ''),
       lower = (\<lambda>s. s),
       write_output = (\<lambda>path j. None) \<rparr>"

text \<open>
  Stand-ins for the library functions on the few inputs the examples use: ASCII character
  classes, a date parser that knows four ISO dates, and a \<open>urljoin\<close> for absolute URLs and
  absolute paths, which raises as \<^verbatim>\<open>urllib\<close> does on an opening bracket after the two
  slashes that no closing bracket follows.
\<close>

definition ascii_isspace :: "char \<Rightarrow> bool" where
  "ascii_isspace c \<longleftrightarrow> c \<in> set [CHR '' '', CHR 0x09, CHR 0x0A, CHR 0x0B, CHR 0x0C, CHR 0x0D]"

definition ascii_isalnum :: "char \<Rightarrow> bool" where
  "ascii_isalnum c \<longleftrightarrow>
     c \<in> set ''abcdefghijklmnopqrstuvwxyzABCDEFGHIJKLMNOPQRSTUVWXYZ0123456789''"

definition ascii_lower :: "string \<Rightarrow> string" where
  "ascii_lower s =
     map (\<lambda>c. case map_of (zip ''ABCDEFGHIJKLMNOPQRSTUVWXYZ'' ''abcdefghijklmnopqrstuvwxyz'') c of
                 Some l \<Rightarrow> l | None \<Rightarrow> c) s"

definition known_dates :: "(string \<times> date) list" where
  "known_dates =
     [(''2022-01-01'', (2022, 1, 1)), (''2023-01-01'', (2023, 1, 1)),
      (''2023-06-01'', (2023, 6, 1)), (''2023-12-31'', (2023, 12, 31))]"

definition lib_env :: env where
  "lib_env =
     blocked_env \<lparr>
       urljoin := (\<lambda>base url. case url of None \<Rightarrow> Inr base
                    | Some u \<Rightarrow>
                        if sublist ''//['' u \<and> CHR '']'' \<notin> set u
                        then Inl (ValueError ''Invalid IPv6 URL'')
                        else if prefix ''http'' u then Inr u else Inr (base @ u)),
       quote_plus := (\<lambda>s. Inr (map (\<lambda>c. if c = CHR '' '' then CHR ''+'' else c) s)),
       dateparse := map_of known_dates,
       dateparse_fuzzy := map_of known_dates,
       isoformat := (\<lambda>d. case find (\<lambda>kv. snd kv = d) known_dates of
                            Some kv \<Rightarrow> fst kv | None \<Rightarrow> ''0001-01-01''),
       isalnum := ascii_isalnum,
       isspace := ascii_isspace,
       lower := ascii_lower \<rparr>"

definition great_tool :: element where
  "great_tool =
     \<lparr> el_str = Some ''<article><h3>Great tool</h3><p>It saved our team many hours every week.</p><time>2023-06-01</time></article>'',
       get_text_sp = ''Great tool It saved our team many hours every week. 2023-06-01'',
       find_heading = (\<lambda>h. if h = ''h3'' then Some ''Great tool'' else None),
       time_texts = [''It saved our team many hours every week.'', ''2023-06-01''],
       get_text_pipe = ''Great tool | It saved our team many hours every week. | 2023-06-01'' \<rparr>"

definition too_short :: element where
  "too_short =
     \<lparr> el_str = Some ''<div class=review-count>12 reviews</div>'',
       get_text_sp = ''12 reviews'',
       find_heading = (\<lambda>h. None),
       time_texts = [],
       get_text_pipe = ''12 reviews'' \<rparr>"

definition listing :: soup where
  "listing =
     \<lparr> review_id_els = [], review_class_els = [too_short, great_tool], selected_els = [great_tool],
       anchors = [], canonical = None, next_anchor = None, link_next = None,
       pagination_next = None \<rparr>"

definition great_tool_review :: review where
  "great_tool_review =
     \<lparr> title = ''Great tool'',
       description = ''Great tool It saved our team many hours every week. 2023-06-01'',
       date = Some ''2023-06-01'',
       source = ''capterra'',
       additional = \<lparr> rating = None, reviewer = None \<rparr> \<rparr>"

definition old_review :: review where
  "old_review =
     \<lparr> title = ''Slow'',
       description = ''Slow and hard to configure, support never answered our tickets.'',
       date = Some ''2022-01-01'',
       source = ''capterra'',
       additional = \<lparr> rating = Some ''2/5'', reviewer = None \<rparr> \<rparr>"

definition undated_review :: review where
  "undated_review = old_review \<lparr> title := ''No date'', date := None \<rparr>"

definition odd_date_review :: review where
  "odd_date_review = old_review \<lparr> title := ''Odd date'', date := Some ''last spring'' \<rparr>"

text \<open>
  A small site. The search page links to the product page; the product page holds one review
  and links to its second page, which holds an older review and links back to the first.
\<close>

definition slow_tool :: element where
  "slow_tool =
     \<lparr> el_str = Some ''<article><h4>Slow</h4><p>Hard to configure and support never answered.</p><time>2022-01-01</time><span>2/5</span></article>'',
       get_text_sp = ''Slow Hard to configure and support never answered. 2022-01-01 2/5'',
       find_heading = (\<lambda>h. if h = ''h4'' then Some ''Slow'' else None),
       time_texts = [''Hard to configure and support never answered.'', ''2022-01-01'', ''2/5''],
       get_text_pipe = ''Slow | Hard to configure and support never answered. | 2022-01-01 | 2/5'' \<rparr>"

definition slow_tool_review :: review where
  "slow_tool_review =
     \<lparr> title = ''Slow'',
       description = ''Slow Hard to configure and support never answered. 2022-01-01 2/5'',
       date = Some ''2022-01-01'',
       source = ''capterra'',
       additional = \<lparr> rating = Some ''2/5'', reviewer = None \<rparr> \<rparr>"

definition site_pages :: "(string \<times> soup) list" where
  "site_pages =
     [(''search results'',
         listing \<lparr> review_class_els := [], selected_els := [],
                   anchors := [''/about'', ''/p/12345/acme''] \<rparr>),
      (''first page'',
         listing \<lparr> review_class_els := [too_short, great_tool], selected_els := [great_tool],
                   next_anchor := Some (Some ''https://www.capterra.com/p/12345/acme?page=2'') \<rparr>),
      (''second page'',
         listing \<lparr> review_class_els := [], selected_els := [slow_tool],
                   next_anchor := Some (Some ''https://www.capterra.com/p/12345/acme'') \<rparr>)]"

definition site_urls :: "(string \<times> string) list" where
  "site_urls =
     [(''https://www.capterra.com/search?search=Acme+Corp'', ''search results''),
      (''https://www.capterra.com/p/12345/acme'', ''first page''),
      (''https://www.capterra.com/p/12345/acme?page=2'', ''second page'')]"

definition site_env :: env where
  "site_env =
     lib_env \<lparr>
       session_get := (\<lambda>url. case map_of site_urls url of
                          Some html \<Rightarrow> Inr \<lparr> status_code = 200, resp_text = html \<rparr>
                        | None \<Rightarrow> Inr \<lparr> status_code = 404, resp_text = ''Not Found'' \<rparr>),
       BeautifulSoup := (\<lambda>html. case map_of site_pages html of
                           Some sp \<Rightarrow> sp
                         | None \<Rightarrow> listing \<lparr> review_class_els := [], selected_els := [] \<rparr>) \<rparr>"



text \<open>
  A site without end: every URL answers with a page whose \<^verbatim>\<open>link rel="next"\<close> names the
  URL of the page followed by one more character.
\<close>

definition endless_env :: env where
  "endless_env =
     lib_env \<lparr>
       session_get := (\<lambda>url. Inr \<lparr> status_code = 200, resp_text = url \<rparr>),
       BeautifulSoup := (\<lambda>html. listing \<lparr> review_class_els := [], selected_els := [],
                           link_next := Some (Some (html @ ''0'')) \<rparr>) \<rparr>"



section \<open>Theorems\<close>

subsection \<open>C2: the fallback policy of fetch\<close>

lemma fetch_403_available:
  assumes "session_get e url = Inr r" and "status_code r = 403" and "selenium_available e"
  shows "fetch e url use_selenium = fetch_selenium e url True"
  using assms by (simp add: fetch_def)

lemma fetch_403_unavailable:
  assumes "session_get e url = Inr r" and "status_code r = 403" and "\<not> selenium_available e"
  shows "fetch e url use_selenium = Inl (HTTPError (Some 403))"
  using assms by (simp add: fetch_def raise_for_status_def fetch_http_error_def)

text \<open>
  C2 (as stated, refuted). The claim says that a 403 with the rendering capability present
  always yields the rendered document, and that a 403 without it fails with the reason
  "render capability unavailable". Two runs of the code say otherwise: with Selenium installed
  but failing, \<open>fetch\<close> raises \<open>RuntimeError\<close> "Selenium fetch failed: ..."; without Selenium,
  \<open>fetch\<close> raises the transport's own \<open>HTTPError\<close> of status 403, which is not a
  \<open>RuntimeError\<close> naming the rendering capability.
\<close>

theorem C2_fallback_counterexample:
  "fetch (blocked_env \<lparr> selenium_available := True \<rparr>) ''https://www.g2.com/search?q=acme'' False
     = Inl (RuntimeError ''Selenium fetch failed: chrome not reachable'')
   \<and> fetch blocked_env ''https://www.g2.com/search?q=acme'' False = Inl (HTTPError (Some 403))
   \<and> fetch blocked_env ''https://www.g2.com/search?q=acme'' False
       \<noteq> Inl (RuntimeError ''render capability unavailable'')"
  by (simp add: fetch_def fetch_selenium_def fetch_http_error_def raise_for_status_def
      blocked_env_def)

text \<open>
  C2 (amended). For every URL and either value of the caller's \<open>use_selenium\<close>: when the
  transport answers status 403 and the rendering capability is present, \<open>fetch\<close> returns the
  rendered document if rendering succeeds, and raises \<open>RuntimeError\<close> "Selenium fetch
  failed: cause" if rendering fails; when the transport answers status 403 and the rendering
  capability is absent, \<open>fetch\<close> raises the transport's \<open>HTTPError\<close> of status 403.
\<close>

theorem C2_fallback:
  assumes "session_get e url = Inr r" and "status_code r = 403"
  shows "(selenium_available e \<longrightarrow>
            (\<forall>html. render e url = Inr html \<longrightarrow> fetch e url use_selenium = Inr html) \<and>
            (\<forall>cause. render e url = Inl cause \<longrightarrow>
               fetch e url use_selenium = Inl (RuntimeError (''Selenium fetch failed: '' @ cause))))
       \<and> (\<not> selenium_available e \<longrightarrow> fetch e url use_selenium = Inl (HTTPError (Some 403)))"
proof (cases "selenium_available e")
  case True
  have "fetch e url use_selenium = fetch_selenium e url True"
    by (rule fetch_403_available[OF assms(1) assms(2) True])
  with True show ?thesis by (simp add: fetch_selenium_def)
next
  case False
  with assms show ?thesis by (simp add: fetch_403_unavailable)
qed

theorem C2_fallback_witness:
  "fetch (blocked_env \<lparr> selenium_available := True,
        render := (\<lambda>url. Inr ''<html>rendered</html>'') \<rparr>) ''https://www.g2.com/products/acme'' False
     = Inr ''<html>rendered</html>''
   \<and> fetch blocked_env ''https://www.g2.com/products/acme'' False = Inl (HTTPError (Some 403))"
proof -
  let ?e = "blocked_env \<lparr> selenium_available := True,
        render := (\<lambda>url. Inr ''<html>rendered</html>'') \<rparr>"
  let ?r = "\<lparr> status_code = 403, resp_text = ''Forbidden'' \<rparr>"
  have g: "session_get ?e ''https://www.g2.com/products/acme'' = Inr ?r"
    by (simp add: blocked_env_def)
  have g': "session_get blocked_env ''https://www.g2.com/products/acme'' = Inr ?r"
    by (simp add: blocked_env_def)
  have s: "status_code ?r = 403" by simp
  have a: "selenium_available ?e" by simp
  have n: "\<not> selenium_available blocked_env" by (simp add: blocked_env_def)
  have rd: "render ?e ''https://www.g2.com/products/acme'' = Inr ''<html>rendered</html>''"
    by simp
  from C2_fallback[OF g s, of False] a rd
  have 1: "fetch ?e ''https://www.g2.com/products/acme'' False = Inr ''<html>rendered</html>''"
    by blast
  from C2_fallback[OF g' s, of False] n
  have 2: "fetch blocked_env ''https://www.g2.com/products/acme'' False = Inl (HTTPError (Some 403))"
    by blast
  from 1 2 show ?thesis by simp
qed

subsection \<open>The second deduplication pass\<close>

lemma dedupe_subseq: "subseq (dedupe rs seen) rs"
  by (induction rs arbitrary: seen) auto

lemma dedupe_set:
  "r \<in> set (dedupe rs seen) \<Longrightarrow> r \<in> set rs \<and> description r \<noteq> [] \<and> description r \<notin> seen"
  by (induction rs arbitrary: seen) (auto split: if_splits)

lemma dedupe_distinct: "distinct (map description (dedupe rs seen))"
  by (induction rs arbitrary: seen) (auto dest: dedupe_set)

lemma dedupe_fixed:
  "distinct (map description rs) \<Longrightarrow>
   \<forall>r \<in> set rs. description r \<noteq> [] \<and> description r \<notin> seen \<Longrightarrow> dedupe rs seen = rs"
proof (induction rs arbitrary: seen)
  case Nil
  show ?case by simp
next
  case (Cons a rs)
  have "\<forall>r \<in> set rs. description r \<noteq> [] \<and> description r \<notin> insert (description a) seen"
    using Cons.prems by (auto simp: image_iff)
  with Cons.prems have "dedupe rs (insert (description a) seen) = rs"
    by (intro Cons.IH) simp_all
  with Cons.prems show ?case by simp
qed

lemma dedupe_idem: "dedupe (dedupe rs seen) seen = dedupe rs seen"
  by (rule dedupe_fixed) (auto simp: dedupe_distinct dest: dedupe_set)

lemma dedupe_find:
  "d \<noteq> [] \<Longrightarrow> d \<notin> seen \<Longrightarrow>
   find (\<lambda>r. description r = d) (dedupe rs seen) = find (\<lambda>r. description r = d) rs"
  by (induction rs arbitrary: seen) auto

lemma dedupe_append:
  "dedupe (xs @ ys) seen =
   dedupe xs seen @ dedupe ys (seen \<union> {d \<in> description ` set xs. d \<noteq> []})"
proof (induction xs arbitrary: seen)
  case Nil
  show ?case by simp
next
  case (Cons a xs)
  let ?D = "{d \<in> description ` set xs. d \<noteq> []}"
  show ?case
  proof (cases "description a = [] \<or> description a \<in> seen")
    case True
    then have "seen \<union> {d \<in> description ` set (a # xs). d \<noteq> []} = seen \<union> ?D" by auto
    with True Cons.IH[of seen] show ?thesis by simp
  next
    case False
    then have "seen \<union> {d \<in> description ` set (a # xs). d \<noteq> []}
                 = insert (description a) seen \<union> ?D"
      by auto
    with False Cons.IH[of "insert (description a) seen"] show ?thesis by simp
  qed
qed

lemma dedupe_later_duplicate:
  assumes "r \<in> set xs" and "description r' = description r"
  shows "dedupe (xs @ r' # ys) seen = dedupe (xs @ ys) seen"
proof -
  let ?S = "seen \<union> {d \<in> description ` set xs. d \<noteq> []}"
  have "description r' = [] \<or> description r' \<in> ?S" using assms by auto
  then have "dedupe (r' # ys) ?S = dedupe ys ?S" by simp
  then show ?thesis by (simp only: dedupe_append)
qed

text \<open>
  C5. The deduplication by description is idempotent: run on its own output, with the empty
  \<open>seen_desc\<close> it starts from, it returns that output unchanged. Identity is the description
  alone: the descriptions of the output are pairwise distinct, and a record whose description
  equals that of an earlier record \<open>r\<close> is dropped whatever its other fields hold, so the
  output is the one of the sequence without it.
\<close>

theorem C5_dedupe_idempotent:
  "dedupe (dedupe rs {}) {} = dedupe rs {}
   \<and> distinct (map description (dedupe rs {}))
   \<and> (r \<in> set xs \<and> description r' = description r \<longrightarrow>
        dedupe (xs @ r' # ys) {} = dedupe (xs @ ys) {})"
  using dedupe_idem[of rs "{}"] dedupe_distinct[of rs "{}"] dedupe_later_duplicate[of r xs r' ys "{}"]
  by blast

theorem C5_dedupe_idempotent_witness:
  "dedupe (dedupe [great_tool_review, old_review, great_tool_review] {}) {}
     = dedupe [great_tool_review, old_review, great_tool_review] {}
   \<and> dedupe ([great_tool_review, old_review]
              @ great_tool_review \<lparr> title := ''Another title'', date := None \<rparr> # [undated_review]) {}
     = [great_tool_review, old_review]"
proof -
  let ?r' = "great_tool_review \<lparr> title := ''Another title'', date := None \<rparr>"
  have m: "great_tool_review \<in> set [great_tool_review, old_review]" by simp
  have d: "description ?r' = description great_tool_review" by simp
  have "dedupe ([great_tool_review, old_review] @ ?r' # [undated_review]) {}
          = dedupe ([great_tool_review, old_review] @ [undated_review]) {}"
    using C5_dedupe_idempotent[of "[great_tool_review, old_review, great_tool_review]"
        great_tool_review "[great_tool_review, old_review]" ?r' "[undated_review]"] m d
    by blast
  moreover have "dedupe ([great_tool_review, old_review] @ [undated_review]) {}
          = [great_tool_review, old_review]"
    by (simp add: great_tool_review_def old_review_def undated_review_def)
  moreover have "dedupe (dedupe [great_tool_review, old_review, great_tool_review] {}) {}
     = dedupe [great_tool_review, old_review, great_tool_review] {}"
    using C5_dedupe_idempotent[of "[great_tool_review, old_review, great_tool_review]"
        great_tool_review "[]" great_tool_review "[]"]
    by blast
  ultimately show ?thesis by simp
qed

subsection \<open>The date filter\<close>

lemma date_filter_eq: "date_filter e s t rs = filter (date_filter_keeps e s t) rs"
  by (induction rs) auto

lemma date_filter_subseq: "subseq (date_filter e s t rs) rs"
  by (simp add: date_filter_eq)

text \<open>
  C10. Both passes return a subsequence of their input, in the input's order. The
  deduplication keeps, for each description, the first record that carries it: looking a
  non-empty description \<open>d\<close> up in the output finds the record that looking it up in the input
  finds (records with an empty description are skipped by the pass, and the extractor never
  builds one), and no description is kept twice.
\<close>

theorem C10_order_preserving:
  "subseq (dedupe rs {}) rs
   \<and> subseq (date_filter e start_date end_date rs) rs
   \<and> (\<forall>d. d \<noteq> [] \<longrightarrow>
         find (\<lambda>r. description r = d) (dedupe rs {}) = find (\<lambda>r. description r = d) rs)
   \<and> distinct (map description (dedupe rs {}))"
  using dedupe_subseq[of rs "{}"] date_filter_subseq[of e start_date end_date rs]
    dedupe_distinct[of rs "{}"] dedupe_find[of _ "{}" rs]
  by simp

theorem C10_order_preserving_witness:
  "find (\<lambda>r. description r = description great_tool_review)
     (dedupe [old_review, great_tool_review \<lparr> title := ''First'' \<rparr>,
              great_tool_review \<lparr> title := ''Second'' \<rparr>] {})
     = Some (great_tool_review \<lparr> title := ''First'' \<rparr>)"
proof -
  let ?rs = "[old_review, great_tool_review \<lparr> title := ''First'' \<rparr>,
              great_tool_review \<lparr> title := ''Second'' \<rparr>]"
  have ne: "description great_tool_review \<noteq> []" by (simp add: great_tool_review_def)
  have "find (\<lambda>r. description r = description great_tool_review) (dedupe ?rs {})
          = find (\<lambda>r. description r = description great_tool_review) ?rs"
    using C10_order_preserving[of ?rs lib_env "(2023, 1, 1)" "(2023, 12, 31)"] ne by blast
  also have "\<dots> = Some (great_tool_review \<lparr> title := ''First'' \<rparr>)"
    by (simp add: great_tool_review_def old_review_def)
  finally show ?thesis .
qed

subsection \<open>The extractor\<close>

lemma extract_candidates_set:
  "r \<in> set (extract_candidates e src els seen) \<Longrightarrow>
   \<exists>el \<in> set els. r = make_review e el (get_text_sp el) src \<and> 40 \<le> length (get_text_sp el)"
  by (induction els arbitrary: seen) (auto split: option.splits if_splits)

lemma parse_reviews_from_soup_set:
  assumes "r \<in> set (parse_reviews_from_soup e sp src)"
  shows "\<exists>el \<in> set (review_id_els sp @ review_class_els sp @ selected_els sp).
           r = make_review e el (get_text_sp el) src \<and> 40 \<le> length (get_text_sp el)"
  using assms unfolding parse_reviews_from_soup_def
  by (blast dest: dedupe_set extract_candidates_set)

text \<open>
  C4. Every record the extractor emits has a description of at least 40 characters, hence a
  non-empty one; the description is the whitespace-normalized text of a candidate of the page;
  and a candidate whose text is shorter than 40 characters (the empty text included) is the
  description of no emitted record.
\<close>

theorem C4_short_candidates_discarded:
  "(\<forall>r \<in> set (parse_reviews_from_soup e sp src).
      40 \<le> length (description r) \<and> description r \<noteq> []
      \<and> (\<exists>el \<in> set (review_id_els sp @ review_class_els sp @ selected_els sp).
            description r = get_text_sp el))
   \<and> (\<forall>el \<in> set (review_id_els sp @ review_class_els sp @ selected_els sp).
        length (get_text_sp el) < 40 \<longrightarrow>
        (\<forall>r \<in> set (parse_reviews_from_soup e sp src). description r \<noteq> get_text_sp el))"
proof -
  have a: "40 \<le> length (description r) \<and> description r \<noteq> []
      \<and> (\<exists>el \<in> set (review_id_els sp @ review_class_els sp @ selected_els sp).
            description r = get_text_sp el)"
    if "r \<in> set (parse_reviews_from_soup e sp src)" for r
  proof -
    from parse_reviews_from_soup_set[OF that] obtain el
      where el: "el \<in> set (review_id_els sp @ review_class_els sp @ selected_els sp)"
        and r: "r = make_review e el (get_text_sp el) src" and len: "40 \<le> length (get_text_sp el)"
      by blast
    from r have d: "description r = get_text_sp el" by (simp add: make_review_def)
    from len have "get_text_sp el \<noteq> []" by auto
    with d len el show ?thesis by auto
  qed
  then have b: "description r \<noteq> get_text_sp el"
    if "r \<in> set (parse_reviews_from_soup e sp src)" and "length (get_text_sp el) < 40" for r el
    using that by fastforce
  from a b show ?thesis by blast
qed

theorem C4_short_candidates_discarded_witness:
  "parse_reviews_from_soup lib_env listing ''capterra'' = [great_tool_review]
   \<and> length (get_text_sp too_short) < 40
   \<and> 40 \<le> length (description great_tool_review)
   \<and> description great_tool_review \<noteq> get_text_sp too_short"
proof -
  have p: "parse_reviews_from_soup lib_env listing ''capterra'' = [great_tool_review]"
    by (simp add: parse_reviews_from_soup_def listing_def great_tool_def too_short_def
        make_review_def review_title_def find_rating_def is_rating_token_def strip_def
        lib_env_def blocked_env_def known_dates_def great_tool_review_def
        ascii_isspace_def ascii_lower_def suffix_to_prefix)
  have s: "length (get_text_sp too_short) < 40" by (simp add: too_short_def)
  have m: "too_short \<in> set (review_id_els listing @ review_class_els listing @ selected_els listing)"
    by (simp add: listing_def)
  from C4_short_candidates_discarded[of lib_env listing "''capterra''"] m s
  have "\<forall>r \<in> set (parse_reviews_from_soup lib_env listing ''capterra'').
        40 \<le> length (description r) \<and> description r \<noteq> get_text_sp too_short"
    by blast
  with p s show ?thesis by simp
qed

subsection \<open>The pagination walk\<close>

lemmas site_defs = site_env_def lib_env_def blocked_env_def site_urls_def site_pages_def
  listing_def fetch_def raise_for_status_def fetch_http_error_def fetch_selenium_def
  find_next_link_def href_of_def sublist_code

lemmas extractor_defs = parse_reviews_from_soup_def slow_tool_def too_short_def great_tool_def
  make_review_def review_title_def find_rating_def is_rating_token_def strip_def known_dates_def
  slow_tool_review_def great_tool_review_def ascii_isspace_def ascii_lower_def suffix_to_prefix

lemma walk_loop_terminates:
  assumes fin: "finite U"
    and closed: "\<And>u html v. u \<in> U \<Longrightarrow> fetch e u us = Inr html \<Longrightarrow>
                   find_next_link e u (BeautifulSoup e html) = Inr (Some v) \<Longrightarrow> v \<in> U"
  shows "(\<forall>u. nu = Some u \<longrightarrow> u \<in> U) \<Longrightarrow> visited = set trace \<Longrightarrow> distinct trace \<Longrightarrow>
     \<exists>r t. walk_loop e src us nu visited reviews trace = Some (r, t) \<and> distinct t
        \<and> set t \<subseteq> set trace \<union> U"
proof (induction "card (U - visited)" arbitrary: nu visited reviews trace rule: less_induct)
  case less
  show ?case
  proof (cases nu)
    case None
    with less.prems show ?thesis by (simp add: walk_loop.simps)
  next
    case (Some u)
    show ?thesis
    proof (cases "u = [] \<or> u \<in> visited")
      case True
      with Some less.prems show ?thesis by (auto simp add: walk_loop.simps)
    next
      case False
      with Some less.prems have uU: "u \<in> U" and unv: "u \<notin> set trace" by auto
      show ?thesis
      proof (cases "fetch e u us")
        case (Inl ex)
        with Some False less.prems uU unv show ?thesis
          by (subst walk_loop.simps) auto
      next
        case (Inr html)
        show ?thesis
        proof (cases "find_next_link e u (BeautifulSoup e html)")
          case (Inl ex)
          with Some False Inr less.prems uU unv show ?thesis
            by (subst walk_loop.simps) auto
        next
          case next_link: (Inr nl)
          let ?rv = "reviews @ parse_reviews_from_soup e (BeautifulSoup e html) src"
          have c: "card (U - insert u visited) < card (U - visited)"
            using fin uU False by (intro psubset_card_mono) auto
          have n: "\<forall>v. nl = Some v \<longrightarrow> v \<in> U" using closed[OF uU Inr] next_link by blast
          have v: "insert u visited = set (trace @ [u])" using less.prems by simp
          have d: "distinct (trace @ [u])" using less.prems unv by simp
          from less.hyps[OF c n v d, of ?rv] obtain r t
            where r: "walk_loop e src us nl (insert u visited) ?rv (trace @ [u]) = Some (r, t)"
              and dt: "distinct t" and st: "set t \<subseteq> set (trace @ [u]) \<union> U" by blast
          have "walk_loop e src us nu visited reviews trace = Some (r, t)"
            using Some False Inr next_link r by (subst walk_loop.simps) simp
          moreover have "set t \<subseteq> set trace \<union> U" using st uU by auto
          ultimately show ?thesis using dt by blast
        qed
      qed
    qed
  qed
qed




lemma endless_fetch: "fetch endless_env u us = Inr u"
  by (simp add: endless_env_def fetch_def raise_for_status_def)

lemma endless_next:
  assumes "prefix ''http'' u" and "CHR ''['' \<notin> set u"
  shows "find_next_link endless_env u (BeautifulSoup endless_env u) = Inr (Some (u @ ''0''))"
proof -
  have "\<not> sublist ''//['' (u @ ''0'')"
  proof
    assume "sublist ''//['' (u @ ''0'')"
    then obtain ps ss where "u @ ''0'' = ps @ ''//['' @ ss" by (auto simp: sublist_def)
    then have "CHR ''['' \<in> set (u @ ''0'')" by simp
    with assms(2) show False by simp
  qed
  with assms(1) show ?thesis
    by (simp add: endless_env_def find_next_link_def href_of_def lib_env_def listing_def
        prefix_prefix)
qed

lemma endless_never_returns:
  assumes r: "walk_loop e src us nu visited rs t = Some y"
  shows "e = endless_env \<longrightarrow>
         (\<forall>u. nu = Some u \<longrightarrow> prefix ''http'' u \<longrightarrow> CHR ''['' \<notin> set u \<longrightarrow>
              (\<forall>v\<in>visited. length v < length u) \<longrightarrow> False)"
proof (rule walk_loop.raw_induct[OF _ r, where P = "\<lambda>e src us nu visited rs t y.
         e = endless_env \<longrightarrow>
         (\<forall>u. nu = Some u \<longrightarrow> prefix ''http'' u \<longrightarrow> CHR ''['' \<notin> set u \<longrightarrow>
              (\<forall>v\<in>visited. length v < length u) \<longrightarrow> False)"])
  fix walk :: "env \<Rightarrow> string \<Rightarrow> bool \<Rightarrow> string option \<Rightarrow> string set \<Rightarrow> review list \<Rightarrow> string list
     \<Rightarrow> ((exn + review list) \<times> string list) option"
  fix e src us nu visited rs t y
  assume IH: "\<And>e src us nu visited rs t y. walk e src us nu visited rs t = Some y \<Longrightarrow>
        e = endless_env \<longrightarrow>
         (\<forall>u. nu = Some u \<longrightarrow> prefix ''http'' u \<longrightarrow> CHR ''['' \<notin> set u \<longrightarrow>
              (\<forall>v\<in>visited. length v < length u) \<longrightarrow> False)"
  assume body: "(case nu of
        None \<Rightarrow> Some (Inr rs, t)
      | Some u \<Rightarrow>
          if u = [] \<or> u \<in> visited then Some (Inr rs, t)
          else (case fetch e u us of
                  Inl ex \<Rightarrow> Some (Inr rs, t @ [u])
                | Inr html \<Rightarrow>
                    (case find_next_link e u (BeautifulSoup e html) of
                       Inl ex \<Rightarrow> Some (Inl ex, t @ [u])
                     | Inr next_link \<Rightarrow>
                         walk e src us next_link (insert u visited)
                           (rs @ parse_reviews_from_soup e (BeautifulSoup e html) src)
                           (t @ [u])))) = Some y"
  show "e = endless_env \<longrightarrow>
         (\<forall>u. nu = Some u \<longrightarrow> prefix ''http'' u \<longrightarrow> CHR ''['' \<notin> set u \<longrightarrow>
              (\<forall>v\<in>visited. length v < length u) \<longrightarrow> False)"
  proof (intro impI allI)
    fix u assume e: "e = endless_env" and nu: "nu = Some u" and h: "prefix ''http'' u"
      and nb: "CHR ''['' \<notin> set u" and len: "\<forall>v\<in>visited. length v < length u"
    from h have ne: "u \<noteq> []" by auto
    from len have nv: "u \<notin> visited" by auto
    from body e nu ne nv endless_fetch[of u us] endless_next[OF h nb]
    have "walk e src us (Some (u @ ''0'')) (insert u visited)
            (rs @ parse_reviews_from_soup e (BeautifulSoup e u) src) (t @ [u]) = Some y"
      by simp
    from IH[OF this] e h nb len show False by (auto simp: prefix_prefix)
  qed
qed

lemma endless_walk_diverges:
  "walk_loop endless_env src us (Some ''https://www.g2.com/products/acme/reviews?page=1'') {} [] []
     = None"
proof (cases "walk_loop endless_env src us
                (Some ''https://www.g2.com/products/acme/reviews?page=1'') {} [] []")
  case None
  then show ?thesis .
next
  case (Some y)
  from endless_never_returns[OF Some] show ?thesis by simp
qed

text \<open>
  C6 (as stated, refuted). The walk does not terminate on every page graph: on the site whose
  every page names a fresh next URL (page=1, page=10, page=100, ...), no URL is ever met twice,
  the cycle guard never fires, and the loop runs for ever, so neither the loop nor
  \<open>scrape_with_pagination\<close> returns.
\<close>

theorem C6_walk_terminates_counterexample:
  "walk_loop endless_env ''g2'' False
       (Some ''https://www.g2.com/products/acme/reviews?page=1'') {} [] [] = None
   \<and> scrape_with_pagination endless_env ''https://www.g2.com/products/acme/reviews?page=1''
       ''g2'' (2023, 1, 1) (2023, 12, 31) False = None"
  by (simp add: scrape_with_pagination_def endless_walk_diverges)

text \<open>
  C6 (amended). On every page graph with finitely many URLs, cyclic or not, the walk
  terminates: if \<open>U\<close> is a finite set of URLs that holds the start URL and the next link of
  every page of \<open>U\<close> that can be fetched, then the loop and \<open>scrape_with_pagination\<close> end
  (with records or with the exception of \<^verbatim>\<open>urljoin\<close>); the URLs fetched are pairwise distinct
  (each URL is visited at most once) and all in \<open>U\<close>. The loop stops at once, returning its
  records, when the next URL is absent or is in the visited set.
\<close>

theorem C6_walk_terminates:
  assumes "finite U" and "start_url \<in> U"
    and "\<forall>u \<in> U. \<forall>html v. fetch e u use_selenium = Inr html \<longrightarrow>
           find_next_link e u (BeautifulSoup e html) = Inr (Some v) \<longrightarrow> v \<in> U"
  shows "(\<exists>r t. walk_loop e src use_selenium (Some start_url) {} [] [] = Some (r, t)
            \<and> distinct t \<and> set t \<subseteq> U)
       \<and> (\<exists>r t. scrape_with_pagination e start_url src start_date end_date use_selenium
                    = Some (r, t) \<and> distinct t \<and> set t \<subseteq> U)
       \<and> walk_loop e src use_selenium None visited reviews trace = Some (Inr reviews, trace)
       \<and> (u \<in> visited \<longrightarrow>
            walk_loop e src use_selenium (Some u) visited reviews trace
              = Some (Inr reviews, trace))"
proof -
  have closed: "\<And>u html v. u \<in> U \<Longrightarrow> fetch e u use_selenium = Inr html \<Longrightarrow>
                   find_next_link e u (BeautifulSoup e html) = Inr (Some v) \<Longrightarrow> v \<in> U"
    using assms(3) by blast
  have "\<exists>r t. walk_loop e src use_selenium (Some start_url) {} [] [] = Some (r, t)
            \<and> distinct t \<and> set t \<subseteq> set [] \<union> U"
    by (rule walk_loop_terminates[OF assms(1) closed]) (use assms(2) in simp_all)
  then obtain r t where w: "walk_loop e src use_selenium (Some start_url) {} [] [] = Some (r, t)"
    and d: "distinct t" and s: "set t \<subseteq> U" by auto
  from w have "\<exists>r'. scrape_with_pagination e start_url src start_date end_date use_selenium
                 = Some (r', t)"
    by (cases r) (simp_all add: scrape_with_pagination_def)
  moreover have "walk_loop e src use_selenium None visited reviews trace
                   = Some (Inr reviews, trace)"
    by (simp add: walk_loop.simps)
  moreover have "u \<in> visited \<longrightarrow>
            walk_loop e src use_selenium (Some u) visited reviews trace
              = Some (Inr reviews, trace)"
    by (simp add: walk_loop.simps)
  ultimately show ?thesis using w d s by blast
qed

theorem C6_walk_terminates_witness:
  "\<exists>r t. walk_loop site_env ''capterra'' False (Some ''https://www.capterra.com/p/12345/acme'')
             {} [] [] = Some (r, t)
         \<and> distinct t
         \<and> set t \<subseteq> {''https://www.capterra.com/p/12345/acme'',
                      ''https://www.capterra.com/p/12345/acme?page=2''}"
proof -
  let ?U = "{''https://www.capterra.com/p/12345/acme'',
             ''https://www.capterra.com/p/12345/acme?page=2''}"
  have f: "finite ?U" by simp
  have m: "''https://www.capterra.com/p/12345/acme'' \<in> ?U" by simp
  have c: "\<forall>u \<in> ?U. \<forall>html v. fetch site_env u False = Inr html \<longrightarrow>
           find_next_link site_env u (BeautifulSoup site_env html) = Inr (Some v) \<longrightarrow> v \<in> ?U"
    by (simp add: site_defs)
  from C6_walk_terminates[OF f m c, of "''capterra''"] show ?thesis by blast
qed




text \<open>
  C3. A record whose date field is \<^verbatim>\<open>None\<close> passes the filter. A record whose date string
  parses to \<open>d\<close> passes exactly when \<open>start_date \<le> d \<le> end_date\<close>, both bounds included (the
  string is not empty here: the script tests the truth value of the field, so an empty string
  counts as no date). A record whose date string does not parse passes. The filter runs inside
  \<open>scrape_with_pagination\<close>, once, on all the records of the finished walk of that source
  (an exception that left the walk passes through unchanged).
\<close>

theorem C3_date_filter:
  "(date r = None \<longrightarrow> (r \<in> set (date_filter e start_date end_date rs) \<longleftrightarrow> r \<in> set rs))
   \<and> (\<forall>ds d. date r = Some ds \<and> ds \<noteq> [] \<and> dateparse e ds = Some d \<longrightarrow>
         (r \<in> set (date_filter e start_date end_date rs)
            \<longleftrightarrow> r \<in> set rs \<and> start_date \<le> d \<and> d \<le> end_date))
   \<and> (\<forall>ds. date r = Some ds \<and> dateparse e ds = None \<longrightarrow>
         (r \<in> set (date_filter e start_date end_date rs) \<longleftrightarrow> r \<in> set rs))
   \<and> scrape_with_pagination e start_url src start_date end_date use_selenium
       = map_option (\<lambda>(r, trace). (map_sum id (date_filter e start_date end_date) r, trace))
           (walk_loop e src use_selenium (Some start_url) {} [] [])"
proof -
  have "scrape_with_pagination e start_url src start_date end_date use_selenium
       = map_option (\<lambda>(r, trace). (map_sum id (date_filter e start_date end_date) r, trace))
           (walk_loop e src use_selenium (Some start_url) {} [] [])"
    by (simp add: scrape_with_pagination_def split: option.splits sum.splits prod.splits)
  then show ?thesis
    by (auto simp add: date_filter_eq date_filter_keeps_def)
qed

theorem C3_date_filter_witness:
  "date_filter lib_env (2023, 1, 1) (2023, 12, 31)
       [great_tool_review, old_review, undated_review, odd_date_review]
     = [great_tool_review, undated_review, odd_date_review]
   \<and> great_tool_review
       \<in> set (date_filter lib_env (2023, 6, 1) (2023, 6, 1) [old_review, great_tool_review])
   \<and> old_review
       \<notin> set (date_filter lib_env (2023, 1, 1) (2023, 12, 31) [old_review, great_tool_review])"
proof -
  have 1: "date_filter lib_env (2023, 1, 1) (2023, 12, 31)
       [great_tool_review, old_review, undated_review, odd_date_review]
     = [great_tool_review, undated_review, odd_date_review]"
    by (simp add: date_filter_keeps_def lib_env_def known_dates_def great_tool_review_def
        old_review_def undated_review_def odd_date_review_def less_eq_prod_def)
  have g: "date great_tool_review = Some ''2023-06-01'' \<and> ''2023-06-01'' \<noteq> []
           \<and> dateparse lib_env ''2023-06-01'' = Some (2023, 6, 1)"
    by (simp add: great_tool_review_def lib_env_def known_dates_def)
  have o: "date old_review = Some ''2022-01-01'' \<and> ''2022-01-01'' \<noteq> []
           \<and> dateparse lib_env ''2022-01-01'' = Some (2022, 1, 1)"
    by (simp add: old_review_def lib_env_def known_dates_def)
  have 2: "great_tool_review
       \<in> set (date_filter lib_env (2023, 6, 1) (2023, 6, 1) [old_review, great_tool_review])"
    using C3_date_filter[of great_tool_review lib_env "(2023, 6, 1)" "(2023, 6, 1)"
        "[old_review, great_tool_review]"] g
    by simp
  have 3: "old_review
       \<notin> set (date_filter lib_env (2023, 1, 1) (2023, 12, 31) [old_review, great_tool_review])"
    using C3_date_filter[of old_review lib_env "(2023, 1, 1)" "(2023, 12, 31)"
        "[old_review, great_tool_review]"] o
    by (simp add: less_eq_prod_def)
  from 1 2 3 show ?thesis by simp
qed

subsection \<open>Link discovery on capterra\<close>

lemma collapse_ws_words:
  "\<forall>c \<in> set w. \<not> sp c \<Longrightarrow> collapse_ws sp (w @ x) = w @ collapse_ws sp x"
  by (induction w) auto

lemma collapse_ws_blanks:
  "r \<noteq> [] \<Longrightarrow> \<forall>c \<in> set r. sp c \<Longrightarrow>
   collapse_ws sp (r @ x) = CHR ''-'' # collapse_ws sp (dropWhile sp x)"
  by (cases r) (simp_all add: dropWhile_append)

lemma strip_Nil:
  assumes "dropWhile sp s = []"
  shows "strip sp s = []"
  unfolding strip_def assms by simp

lemma rstrip_blank:
  "\<forall>c \<in> set y. sp c \<Longrightarrow> rev (dropWhile sp (rev (x @ y))) = rev (dropWhile sp (rev x))"
  by (simp add: dropWhile_append)

lemma rstrip_nonblank:
  "\<not> (\<forall>c \<in> set y. sp c) \<Longrightarrow> rev (dropWhile sp (rev (x @ y))) = x @ rev (dropWhile sp (rev y))"
  by (auto simp add: dropWhile_append)

lemma rstrip_word: "\<forall>c \<in> set w. \<not> sp c \<Longrightarrow> rev (dropWhile sp (rev w)) = w"
  by (cases w rule: rev_cases) auto

lemma split_ws_Nil: "split_ws sp s = [] \<longleftrightarrow> dropWhile sp s = []"
  by (subst split_ws.simps) (simp add: Let_def)

lemma split_ws_Cons:
  "dropWhile sp s \<noteq> [] \<Longrightarrow>
   split_ws sp s = takeWhile (\<lambda>c. \<not> sp c) (dropWhile sp s)
                     # split_ws sp (dropWhile (\<lambda>c. \<not> sp c) (dropWhile sp s))"
  by (subst split_ws.simps) (simp add: Let_def)

declare split_ws.simps [simp del]

lemma join_Cons: "vs \<noteq> [] \<Longrightarrow> join sep (v # vs) = v @ sep @ join sep vs"
  by (cases vs) simp_all

lemma join_split_ws: "join ''-'' (split_ws sp s) = collapse_ws sp (strip sp s)"
proof (induction sp s rule: split_ws.induct)
  case (1 sp s)
  define s' where "s' = dropWhile sp s"
  show ?case
  proof (cases "s' = []")
    case True
    then have "split_ws sp s = []" and "strip sp s = []"
      unfolding s'_def by (simp_all only: split_ws_Nil strip_Nil)
    then show ?thesis by simp
  next
    case False
    define w where "w = takeWhile (\<lambda>c. \<not> sp c) s'"
    define r where "r = dropWhile (\<lambda>c. \<not> sp c) s'"
    have s': "s' = w @ r" by (simp add: w_def r_def)
    have w: "\<forall>c \<in> set w. \<not> sp c" unfolding w_def by (auto dest: set_takeWhileD)
    have sw: "split_ws sp s = w # split_ws sp r"
      using False unfolding w_def r_def s'_def by (rule split_ws_Cons)
    have IH: "join ''-'' (split_ws sp r) = collapse_ws sp (strip sp r)"
      using 1[OF refl] False unfolding r_def s'_def by blast
    have st: "strip sp s = rev (dropWhile sp (rev (w @ r)))"
      unfolding strip_def s'_def[symmetric] s' ..
    show ?thesis
    proof (cases "dropWhile sp r = []")
      case True
      then have all: "\<forall>c \<in> set r. sp c" by (simp only: dropWhile_eq_Nil_conv)
      have "strip sp s = w"
        unfolding st rstrip_blank[OF all] by (rule rstrip_word[OF w])
      moreover have "split_ws sp r = []" using True by (simp only: split_ws_Nil)
      moreover have "collapse_ws sp w = w" using collapse_ws_words[OF w, of "[]"] by simp
      ultimately show ?thesis unfolding sw by simp
    next
      case F2: False
      define b where "b = takeWhile sp r"
      define r2 where "r2 = dropWhile sp r"
      have r: "r = b @ r2" by (simp add: b_def r2_def)
      have b: "\<forall>c \<in> set b. sp c" unfolding b_def by (auto dest: set_takeWhileD)
      obtain c cs where c: "r2 = c # cs" and nc: "\<not> sp c"
        using F2 hd_dropWhile[of sp r] unfolding r2_def by (cases "dropWhile sp r") auto
      have nall2: "\<not> (\<forall>c \<in> set r2. sp c)" using c nc by auto
      then have nall: "\<not> (\<forall>c \<in> set r. sp c)" unfolding r by auto
      have rne: "r \<noteq> []" using F2 by auto
      have "sp (hd r)"
        using rne hd_dropWhile[of "\<lambda>c. \<not> sp c" s'] unfolding r_def by simp
      then have bne: "b \<noteq> []" using rne unfolding b_def by (cases r) auto
      define t where "t = rev (dropWhile sp (rev r2))"
      have "t = [c] @ rev (dropWhile sp (rev cs)) \<or> t = rev (dropWhile sp (rev [c]))"
        unfolding t_def c using rstrip_blank[of cs sp "[c]"] rstrip_nonblank[of cs sp "[c]"]
        by (metis append_Cons append_Nil)
      then have thd: "dropWhile sp t = t" using nc by auto
      have "strip sp s = w @ b @ t"
        unfolding st rstrip_nonblank[OF nall] unfolding r rstrip_nonblank[OF nall2] t_def ..
      then have "collapse_ws sp (strip sp s) = w @ CHR ''-'' # collapse_ws sp t"
        using collapse_ws_words[OF w, of "b @ t"] collapse_ws_blanks[OF bne b, of t] thd by simp
      moreover have "strip sp r = t" unfolding t_def strip_def r2_def ..
      moreover have "split_ws sp r \<noteq> []" using F2 by (simp only: split_ws_Nil not_False_eq_True)
      ultimately show ?thesis unfolding sw using IH by (simp add: join_Cons)
    qed
  qed
qed

lemma map_sum_Some_neq: "map_sum id Some x \<noteq> Inr None"
  by (cases x) auto

lemma capterra_try_first:
  "capterra_try e us urls =
     (case find (\<lambda>url. candidate_link e us url \<noteq> Inr None) urls of
        None \<Rightarrow> (Inr None, urls)
      | Some url \<Rightarrow>
          (candidate_link e us url,
           takeWhile (\<lambda>url. candidate_link e us url = Inr None) urls @ [url]))"
proof (induction urls)
  case Nil
  show ?case by simp
next
  case (Cons url urls)
  show ?case
  proof (cases "candidate_link e us url = Inr None")
    case True
    then have "capterra_try e us (url # urls)
                 = (case capterra_try e us urls of (r, t) \<Rightarrow> (r, url # t))"
      by (auto simp: candidate_link_def map_sum_Some_neq split: sum.splits option.splits)
    with True Cons.IH show ?thesis by (simp split: option.splits)
  next
    case False
    then have "capterra_try e us (url # urls) = (candidate_link e us url, [url])"
      by (auto simp: candidate_link_def map_sum_Some_neq split: sum.splits option.splits)
    with False show ?thesis by simp
  qed
qed

text \<open>
  C9 (as stated, refuted). The slug is not the filtered lowercase name with each whitespace run
  turned into a hyphen: \<^verbatim>\<open>split()\<close> drops the whitespace at both ends. For the company
  name "Acme Corp " the script tries /p/acme-corp, where the claim's slug is acme-corp-.
\<close>

theorem C9_capterra_discovery_counterexample:
  "slugify lib_env ''Acme Corp '' = ''acme-corp''
   \<and> spec_slug lib_env ''Acme Corp '' = ''acme-corp-''
   \<and> capterra_candidates lib_env ''Acme+Corp+'' ''Acme Corp '' ! 2
       = ''https://www.capterra.com/p/acme-corp''"
  by (simp add: slugify_def spec_slug_def capterra_candidates_def lib_env_def ascii_isalnum_def
      ascii_isspace_def ascii_lower_def split_ws.simps)

text \<open>
  C9 (amended). For every company name, with \<open>q\<close> its quoted form, the candidates are exactly
  four URLs, in this order: the two search queries with \<open>q\<close>, /p/slug and /software/slug. The
  slug is the lowercase name with every character other than alphanumerics, whitespace and
  hyphens removed, then stripped of the whitespace at both ends, then with each remaining
  whitespace run collapsed into one hyphen. The discovery returns what the first candidate
  that yields anything yields (its first matching anchor joined to the site root, else its
  canonical link), having fetched the candidates up to that one and no further; it returns
  nothing, having fetched all four, when no candidate yields a link. (When \<^verbatim>\<open>quote_plus\<close>
  raises on the name, the discovery raises before any fetch.)
\<close>

theorem C9_capterra_discovery:
  "capterra_candidates e q company =
     [''https://www.capterra.com/search?search='' @ q,
      ''https://www.capterra.com/search?query='' @ q,
      ''https://www.capterra.com/p/'' @ slugify e company,
      ''https://www.capterra.com/software/'' @ slugify e company]
   \<and> slugify e company =
       collapse_ws (isspace e) (strip (isspace e)
         (filter (\<lambda>c. isalnum e c \<or> isspace e c \<or> c = CHR ''-'') (lower e company)))
   \<and> capterra_search_company_link e company use_selenium =
       (case quote_plus e company of
          Inl ex \<Rightarrow> (Inl ex, [])
        | Inr q \<Rightarrow>
            (case find (\<lambda>url. candidate_link e use_selenium url \<noteq> Inr None)
                    (capterra_candidates e q company) of
               None \<Rightarrow> (Inr None, capterra_candidates e q company)
             | Some url \<Rightarrow>
                 (candidate_link e use_selenium url,
                  takeWhile (\<lambda>url. candidate_link e use_selenium url = Inr None)
                    (capterra_candidates e q company) @ [url])))"
  by (simp add: capterra_candidates_def slugify_def join_split_ws capterra_search_company_link_def
      capterra_try_first split: sum.splits)

theorem C9_capterra_discovery_witness:
  "capterra_search_company_link site_env ''Acme Corp'' False
     = (Inr (Some ''https://www.capterra.com/p/12345/acme''),
        [''https://www.capterra.com/search?search=Acme+Corp''])
   \<and> capterra_candidates site_env ''Acme+Corp'' ''Acme Corp'' =
       [''https://www.capterra.com/search?search=Acme+Corp'',
        ''https://www.capterra.com/search?query=Acme+Corp'',
        ''https://www.capterra.com/p/acme-corp'',
        ''https://www.capterra.com/software/acme-corp'']"
proof -
  have q: "quote_plus site_env ''Acme Corp'' = Inr ''Acme+Corp''"
    by (simp add: site_env_def lib_env_def)
  have sl: "slugify site_env ''Acme Corp'' = ''acme-corp''"
    by (simp add: slugify_def site_env_def lib_env_def ascii_isalnum_def ascii_isspace_def
        ascii_lower_def split_ws.simps)
  have c: "capterra_candidates site_env ''Acme+Corp'' ''Acme Corp'' =
       [''https://www.capterra.com/search?search=Acme+Corp'',
        ''https://www.capterra.com/search?query=Acme+Corp'',
        ''https://www.capterra.com/p/acme-corp'',
        ''https://www.capterra.com/software/acme-corp'']"
    using C9_capterra_discovery[of site_env "''Acme+Corp''" "''Acme Corp''" False] sl by simp
  have y: "candidate_link site_env False ''https://www.capterra.com/search?search=Acme+Corp''
             = Inr (Some ''https://www.capterra.com/p/12345/acme'')"
    by (simp add: candidate_link_def is_capterra_href_def site_defs)
  from C9_capterra_discovery[of site_env "''Acme+Corp''" "''Acme Corp''" False] q c y
  have "capterra_search_company_link site_env ''Acme Corp'' False
     = (Inr (Some ''https://www.capterra.com/p/12345/acme''),
        [''https://www.capterra.com/search?search=Acme+Corp''])"
    by simp
  with c show ?thesis by simp
qed

subsection \<open>The shape of a record\<close>

lemma listing_reviews: "parse_reviews_from_soup lib_env listing ''capterra'' = [great_tool_review]"
  by (simp add: listing_def lib_env_def blocked_env_def extractor_defs)

text \<open>
  C8 (as stated, refuted). The record of the one review of the fixture page has the keys
  title, description, date, source and additional: \<^verbatim>\<open>rating\<close> and \<^verbatim>\<open>reviewer\<close> are not
  among its top-level fields.
\<close>

theorem C8_record_shape_counterexample:
  "json_keys (review_json (hd (parse_reviews_from_soup lib_env listing ''capterra'')))
     = [''title'', ''description'', ''date'', ''source'', ''additional'']
   \<and> ''rating'' \<notin> set (json_keys (review_json (hd (parse_reviews_from_soup lib_env listing ''capterra''))))
   \<and> ''reviewer'' \<notin> set (json_keys (review_json (hd (parse_reviews_from_soup lib_env listing ''capterra''))))"
  by (simp add: listing_reviews review_json_def)

text \<open>
  C8 (amended). Every record the extractor produces has the shape
  \<^verbatim>\<open>{title, description, date, source, additional: {rating, reviewer}}\<close>: \<^verbatim>\<open>rating\<close> and
  \<^verbatim>\<open>reviewer\<close> are optional fields of the nested object \<^verbatim>\<open>additional\<close>, the source is the
  one the extractor was called with, and \<^verbatim>\<open>reviewer\<close> is always null.
\<close>

theorem C8_record_shape:
  "\<forall>r \<in> set (parse_reviews_from_soup e sp src).
     review_json r =
       JObject
         [(''title'', JString (title r)),
          (''description'', JString (description r)),
          (''date'', json_opt (date r)),
          (''source'', JString src),
          (''additional'',
             JObject [(''rating'', json_opt (rating (additional r))), (''reviewer'', JNull)])]
     \<and> reviewer (additional r) = None"
proof
  fix r assume "r \<in> set (parse_reviews_from_soup e sp src)"
  from parse_reviews_from_soup_set[OF this] obtain el
    where "r = make_review e el (get_text_sp el) src" by blast
  then show "review_json r =
       JObject
         [(''title'', JString (title r)),
          (''description'', JString (description r)),
          (''date'', json_opt (date r)),
          (''source'', JString src),
          (''additional'',
             JObject [(''rating'', json_opt (rating (additional r))), (''reviewer'', JNull)])]
     \<and> reviewer (additional r) = None"
    by (simp add: review_json_def make_review_def json_opt_def)
qed

theorem C8_record_shape_witness:
  "review_json great_tool_review =
     JObject
       [(''title'', JString ''Great tool''),
        (''description'', JString ''Great tool It saved our team many hours every week. 2023-06-01''),
        (''date'', JString ''2023-06-01''),
        (''source'', JString ''capterra''),
        (''additional'', JObject [(''rating'', JNull), (''reviewer'', JNull)])]"
proof -
  have "great_tool_review \<in> set (parse_reviews_from_soup lib_env listing ''capterra'')"
    by (simp add: listing_reviews)
  with C8_record_shape[of lib_env listing "''capterra''"]
  have "review_json great_tool_review =
       JObject
         [(''title'', JString (title great_tool_review)),
          (''description'', JString (description great_tool_review)),
          (''date'', json_opt (date great_tool_review)),
          (''source'', JString ''capterra''),
          (''additional'',
             JObject [(''rating'', json_opt (rating (additional great_tool_review))),
                      (''reviewer'', JNull)])]"
    by blast
  then show ?thesis by (simp add: great_tool_review_def json_opt_def)
qed

subsection \<open>The pre-flight check of the dates\<close>













end
